theory Spec2Isabelle
  imports Main
begin

section \<open>The file system the manager works on\<close>

text \<open>
  The project tree is what \<open>filepath.Walk\<close> sees below the manager's root directory.
  A regular file carries the bytes that \<open>readFile\<close> returns, or \<open>None\<close> when opening
  or reading it fails. A directory carries a flag telling whether it can be listed and
  its entries by name, in the lexical order in which \<open>Walk\<close> visits them. The entries of
  a directory that cannot be listed are never seen. Every entry is a regular file or a
  directory on which \<open>Lstat\<close> succeeds, and \<open>rootDir\<close> is a clean path that does not end
  in a separator.
\<close>

datatype node =
    File "string option"
  | Dir bool "(string \<times> node) list"

datatype error =
    NotExist
  | IOError
  | CorruptState
  | WalkError
  | Conflicting
  | NoRuntime
  | UnexpectedFormat
  | Unsupported
  | UnmarshalError
  | Panic

text \<open>What a walk function returns: \<open>nil\<close>, \<open>filepath.SkipDir\<close>, or an error.\<close>

datatype ret = Nil | SkipDir | Err error

text \<open>
  A file kept under the reserved directory \<open>.deta\<close>: it does not exist, it cannot be
  read, its bytes do not parse, or it holds a value.
\<close>

datatype 'a pfile = Missing | Unreadable | Corrupt | Parsed 'a

type_synonym stateMap = "string \<rightharpoonup> string"

record StateChanges =
  Changes :: "string \<rightharpoonup> string"
  Deletions :: "string set"

record ProgInfo =
  Runtime :: string
  Deps :: "string list"

record DepChanges =
  Added :: "string list"
  Removed :: "string list"

text \<open>
  The disk as one manager sees it: the tree at \<open>rootDir\<close>, the two files under
  \<open>.deta\<close> (a hidden directory, which no walk below enters), and the working directory
  of the process. The state file is kept in parsed form: \<open>Parsed sm\<close> stands for bytes
  that \<open>stateMapFromBytes\<close> turns into \<open>sm\<close>. The program info file is what \<open>readFile\<close>
  returns for it: an error or the bytes.

  The working directory lies outside the project tree (\<open>cwdIn\<close> is \<open>None\<close>), and then
  \<open>cwdFiles\<close> gives for a bare file name what \<open>readFile\<close> returns for it; or it is a
  directory of the project tree, the one reached from the root through the names
  \<open>ns\<close> (\<open>cwdIn\<close> is \<open>Some ns\<close>, the root itself for the empty list), and then a bare
  file name is a file of the tree.
\<close>

record disk =
  tree :: node
  stateFile :: "stateMap pfile"
  progInfoFile :: "error + string"
  cwdIn :: "string list option"
  cwdFiles :: "string \<Rightarrow> error + string"

section \<open>Paths\<close>

text \<open>\<open>filepath.Join\<close> of a clean directory path and an entry name.\<close>

definition join :: "string \<Rightarrow> string \<Rightarrow> string" where
  "join d n = d @ ''/'' @ n"

text \<open>The second component of \<open>filepath.Split\<close>: what follows the last separator.\<close>

definition base :: "string \<Rightarrow> string" where
  "base p = rev (takeWhile (\<lambda>c. c \<noteq> CHR ''/'') (rev p))"

text \<open>\<open>isHidden\<close> on a platform other than Windows, where it never fails.\<close>

definition isHidden :: "string \<Rightarrow> bool" where
  "isHidden p = (case base p of [] \<Rightarrow> False | c # _ \<Rightarrow> c = CHR ''.'')"

section \<open>filepath.Walk\<close>

text \<open>
  The walk function receives the path, the node found there (its \<open>FileInfo\<close> and, for
  a file, what reading it gives) and whether listing the directory failed. It threads
  the variables it closes over as a state.
\<close>

type_synonym 's walkFn = "string \<Rightarrow> node \<Rightarrow> bool \<Rightarrow> 's \<Rightarrow> 's \<times> ret"

fun isDir :: "node \<Rightarrow> bool" where
  "isDir (File _) = False"
| "isDir (Dir _ _) = True"

fun walk :: "'s walkFn \<Rightarrow> string \<Rightarrow> node \<Rightarrow> 's \<Rightarrow> 's \<times> ret"
  and walk_names :: "'s walkFn \<Rightarrow> string \<Rightarrow> (string \<times> node) list \<Rightarrow> 's \<Rightarrow> 's \<times> ret"
where
  "walk f p (File c) s = f p (File c) False s"
| "walk f p (Dir ok es) s =
     (case f p (Dir ok es) (\<not> ok) s of
        (s1, r1) \<Rightarrow> if \<not> ok \<or> r1 \<noteq> Nil then (s1, r1) else walk_names f p es s1)"
| "walk_names f p [] s = (s, Nil)"
| "walk_names f p (e # es) s =
     (case walk f (join p (fst e)) (snd e) s of
        (s1, r) \<Rightarrow>
          if r \<noteq> Nil \<and> (\<not> isDir (snd e) \<or> r \<noteq> SkipDir) then (s1, r)
          else walk_names f p es s1)"

definition Walk :: "'s walkFn \<Rightarrow> string \<Rightarrow> node \<Rightarrow> 's \<Rightarrow> 's \<times> ret" where
  "Walk f root t s = (case walk f root t s of (s1, r) \<Rightarrow> (s1, if r = SkipDir then Nil else r))"

section \<open>The manager\<close>

text \<open>
  \<open>NewManager\<close> derives every other field of the manager from \<open>rootDir\<close>; the state
  file and the program info file it names are the two \<open>.deta\<close> files of the disk.
\<close>

record Manager =
  rootDir :: string

text \<open>
  \<open>calcChecksum\<close> reads the file and prints the SHA-256 sum of its bytes in hexadecimal.
  The hash function is a parameter \<open>H\<close> of everything that hashes.
\<close>

definition calcChecksum :: "(string \<Rightarrow> string) \<Rightarrow> string option \<Rightarrow> error + string" where
  "calcChecksum H c = (case c of None \<Rightarrow> Inl IOError | Some b \<Rightarrow> Inr (H b))"

text \<open>A Go map read at a key it does not hold gives the zero value, the empty string.\<close>

definition lookup0 :: "stateMap \<Rightarrow> string \<Rightarrow> string" where
  "lookup0 sm p = (case sm p of None \<Rightarrow> [] | Some h \<Rightarrow> h)"

subsection \<open>storeState\<close>

text \<open>The walk function of \<open>storeState\<close> never looks at the error it is handed.\<close>

fun storeState_fn :: "(string \<Rightarrow> string) \<Rightarrow> stateMap walkFn" where
  "storeState_fn H p (Dir ok es) err sm = (sm, if isHidden p then SkipDir else Nil)"
| "storeState_fn H p (File c) err sm =
     (if isHidden p then (sm, Nil)
      else case calcChecksum H c of
             Inl e \<Rightarrow> (sm, Err e)
           | Inr hashSum \<Rightarrow> (sm(p \<mapsto> hashSum), Nil))"

text \<open>
  Marshalling a map of strings does not fail, and the write of the state file is taken
  to succeed; it replaces the whole file.
\<close>

definition storeState :: "(string \<Rightarrow> string) \<Rightarrow> Manager \<Rightarrow> disk \<Rightarrow> error option \<times> disk" where
  "storeState H m d =
     (case Walk (storeState_fn H) (rootDir m) (tree d) Map.empty of
        (sm, Err e) \<Rightarrow> (Some e, d)
      | (sm, _) \<Rightarrow> (None, d\<lparr>stateFile := Parsed sm\<rparr>))"

subsection \<open>getStoredState and readAll\<close>

definition getStoredState :: "disk \<Rightarrow> error + stateMap" where
  "getStoredState d =
     (case stateFile d of
        Missing \<Rightarrow> Inl NotExist
      | Unreadable \<Rightarrow> Inl IOError
      | Corrupt \<Rightarrow> Inl CorruptState
      | Parsed s \<Rightarrow> Inr s)"

fun readAll_fn :: "(string \<rightharpoonup> string) walkFn" where
  "readAll_fn p nd True ch = (ch, Err WalkError)"
| "readAll_fn p (Dir ok es) False ch = (ch, if isHidden p then SkipDir else Nil)"
| "readAll_fn p (File c) False ch =
     (if isHidden p then (ch, Nil)
      else case c of
             None \<Rightarrow> (ch, Err IOError)
           | Some contents \<Rightarrow> (ch(p \<mapsto> contents), Nil))"

definition readAll :: "Manager \<Rightarrow> disk \<Rightarrow> error + StateChanges" where
  "readAll m d =
     (case Walk readAll_fn (rootDir m) (tree d) Map.empty of
        (ch, Err e) \<Rightarrow> Inl e
      | (ch, _) \<Rightarrow> Inr \<lparr>Changes = ch, Deletions = {}\<rparr>)"

subsection \<open>GetChanges\<close>

text \<open>
  The walk function of \<open>GetChanges\<close> works on the deletions still pending and the
  changes found so far. It takes the path out of the deletions before it hashes the file.
\<close>

fun GetChanges_fn ::
  "(string \<Rightarrow> string) \<Rightarrow> stateMap \<Rightarrow> (string set \<times> (string \<rightharpoonup> string)) walkFn" where
  "GetChanges_fn H st p nd True (dl, ch) = ((dl, ch), Err WalkError)"
| "GetChanges_fn H st p (Dir ok es) False (dl, ch) =
     ((dl, ch), if isHidden p then SkipDir else Nil)"
| "GetChanges_fn H st p (File c) False (dl, ch) =
     (if isHidden p then ((dl, ch), Nil)
      else case calcChecksum H c of
             Inl e \<Rightarrow> ((dl - {p}, ch), Err e)
           | Inr checksum \<Rightarrow>
               if lookup0 st p \<noteq> checksum
               then (case c of
                       None \<Rightarrow> ((dl - {p}, ch), Err IOError)
                     | Some contents \<Rightarrow> ((dl - {p}, ch(p \<mapsto> contents)), Nil))
               else ((dl - {p}, ch), Nil))"

text \<open>
  The error that the walk returns is assigned and never read: whatever the walk has
  collected when it stops is returned with a \<open>nil\<close> error.
\<close>

definition GetChanges ::
  "(string \<Rightarrow> string) \<Rightarrow> Manager \<Rightarrow> disk \<Rightarrow> (error + StateChanges) \<times> disk" where
  "GetChanges H m d =
     (case getStoredState d of
        Inl e \<Rightarrow> ((if e = NotExist then readAll m d else Inl e), d)
      | Inr storedState \<Rightarrow>
          (case Walk (GetChanges_fn H storedState) (rootDir m) (tree d)
                  (dom storedState, Map.empty) of
             ((dl, ch), r) \<Rightarrow> (Inr \<lparr>Changes = ch, Deletions = dl\<rparr>, d)))"

text \<open>
  A stand-in hash for the concrete runs below: the first 64 bytes, padded with zeros.
  Like the SHA-256 sum in hexadecimal it is 64 characters long.
\<close>

definition pad64 :: "string \<Rightarrow> string" where
  "pad64 b = take 64 (b @ replicate 64 (CHR ''0''))"

section \<open>Runtimes and dependencies\<close>

definition Python :: string where
  "Python = ''python''"

definition Node :: string where
  "Node = ''node''"

definition entryPoints :: "string \<rightharpoonup> string" where
  "entryPoints = [''main.py'' \<mapsto> Python, ''index.js'' \<mapsto> Node]"

definition depFiles :: "string \<rightharpoonup> string" where
  "depFiles = [Python \<mapsto> ''requirements.txt'', Node \<mapsto> ''package.json'']"

subsection \<open>GetProgInfo\<close>

text \<open>
  \<open>progInfoFromBytes\<close> is not part of the source at hand; it is a parameter \<open>P\<close> that
  returns, as the Go function does, a pointer that may be \<open>nil\<close> and an error that may
  be \<open>nil\<close>.
\<close>

type_synonym progInfoParser = "string \<Rightarrow> ProgInfo option \<times> error option"

definition GetProgInfo :: "progInfoParser \<Rightarrow> disk \<Rightarrow> ProgInfo option \<times> error option" where
  "GetProgInfo P d =
     (case progInfoFile d of
        Inl e \<Rightarrow> if e = NotExist then (None, None) else (None, Some e)
      | Inr contents \<Rightarrow> P contents)"

subsection \<open>GetRuntime\<close>

text \<open>
  The walk function of \<open>GetRuntime\<close> looks neither at the error it is handed nor at
  hidden names. Its state is the pair of \<open>runtime\<close> and \<open>found\<close>.
\<close>

fun GetRuntime_fn :: "(string \<times> bool) walkFn" where
  "GetRuntime_fn p (Dir ok es) err (rt, found) = ((rt, found), Nil)"
| "GetRuntime_fn p (File c) err (rt, found) =
     (case entryPoints (base p) of
        Some r \<Rightarrow> if \<not> found then ((r, True), Nil) else ((rt, found), Err Conflicting)
      | None \<Rightarrow> ((rt, found), Nil))"

definition GetRuntime :: "Manager \<Rightarrow> disk \<Rightarrow> error + string" where
  "GetRuntime m d =
     (case Walk GetRuntime_fn (rootDir m) (tree d) ([], False) of
        (s, Err e) \<Rightarrow> Inl e
      | ((rt, found), _) \<Rightarrow> if \<not> found then Inl NoRuntime else Inr rt)"

subsection \<open>readDeps\<close>

text \<open>
  Opening and reading the file reached from a node of the tree through a list of names.
  A name that is missing gives "no such file or directory"; going through a file,
  reading a directory, and a directory that cannot be listed give other errors.
\<close>

fun openIn :: "node \<Rightarrow> string list \<Rightarrow> error + string"
  and openIn_names :: "(string \<times> node) list \<Rightarrow> string \<Rightarrow> string list \<Rightarrow> error + string"
where
  "openIn (File c) [] = (case c of None \<Rightarrow> Inl IOError | Some b \<Rightarrow> Inr b)"
| "openIn (File c) (n # ns) = Inl IOError"
| "openIn (Dir ok es) [] = Inl IOError"
| "openIn (Dir ok es) (n # ns) = (if ok then openIn_names es n ns else Inl IOError)"
| "openIn_names [] n ns = Inl NotExist"
| "openIn_names (e # es) n ns =
     (if fst e = n then openIn (snd e) ns else openIn_names es n ns)"

text \<open>
  \<open>readFile\<close> on a bare file name, which the system resolves against the working
  directory of the process; opening the empty path fails with "no such file or
  directory".
\<close>

definition readFile :: "disk \<Rightarrow> string \<Rightarrow> error + string" where
  "readFile d path =
     (if path = [] then Inl NotExist
      else case cwdIn d of
             None \<Rightarrow> cwdFiles d path
           | Some ns \<Rightarrow> openIn (tree d) (ns @ [path]))"

text \<open>\<open>strings.Split\<close> with a separator of one byte.\<close>

fun split_on :: "char \<Rightarrow> string \<Rightarrow> string list" where
  "split_on sep [] = [[]]"
| "split_on sep (x # xs) =
     (if x = sep then [] # split_on sep xs
      else case split_on sep xs of
             w # ws \<Rightarrow> (x # w) # ws
           | [] \<Rightarrow> [[x]])"

text \<open>
  A JSON document as \<open>json.Unmarshal\<close> decodes it into an \<open>interface{}\<close>, and the name
  \<open>reflect.TypeOf\<close> prints for the Go value it becomes. \<open>TypeOf\<close> of the \<open>nil\<close>
  interface is \<open>nil\<close>, and calling \<open>String\<close> on it panics. The JSON parser is a
  parameter \<open>U\<close>, \<open>None\<close> when the bytes are not JSON.
\<close>

datatype json =
    JNull
  | JBool bool
  | JNumber string
  | JString string
  | JArray "json list"
  | JObject "(string \<times> json) list"

type_synonym jsonParser = "string \<Rightarrow> json option"

fun typeName :: "json \<Rightarrow> string option" where
  "typeName JNull = None"
| "typeName (JBool b) = Some ''bool''"
| "typeName (JNumber n) = Some ''float64''"
| "typeName (JString s) = Some ''string''"
| "typeName (JArray xs) = Some ''[]interface {}''"
| "typeName (JObject kvs) = Some ''map[string]interface {}''"

text \<open>
  Decoding into a \<open>map[string]interface{}\<close>: an object gives its map (a later duplicate
  key wins), \<open>null\<close> leaves the map \<open>nil\<close>, anything else is an error.
\<close>

definition unmarshalMap :: "jsonParser \<Rightarrow> string \<Rightarrow> error + (string \<rightharpoonup> json)" where
  "unmarshalMap U contents =
     (case U contents of
        None \<Rightarrow> Inl UnmarshalError
      | Some (JObject kvs) \<Rightarrow> Inr (map_of (rev kvs))
      | Some JNull \<Rightarrow> Inr Map.empty
      | Some _ \<Rightarrow> Inl UnmarshalError)"

text \<open>
  The loop over \<open>deps.(map[string]string)\<close>: the type assertion panics on any other
  dynamic type.
\<close>

fun asString :: "json \<Rightarrow> string option" where
  "asString (JString v) = Some v"
| "asString _ = None"

fun nodeDeps :: "json \<Rightarrow> error + string list" where
  "nodeDeps (JObject kvs) =
     (if list_all (\<lambda>kv. asString (snd kv) \<noteq> None) kvs
      then Inr (map (\<lambda>kv. fst kv @ ''@'' @ the (asString (snd kv))) kvs)
      else Inl Panic)"
| "nodeDeps _ = Inl Panic"

definition readDeps :: "jsonParser \<Rightarrow> Manager \<Rightarrow> disk \<Rightarrow> string \<Rightarrow> error + string list" where
  "readDeps U m d runtime =
     (case readFile d (lookup0 depFiles runtime) of
        Inl e \<Rightarrow> if e = NotExist then Inr [] else Inl e
      | Inr contents \<Rightarrow>
          if runtime = Python then Inr (split_on (CHR 0x0A) contents)
          else if runtime = Node then
            (case unmarshalMap U contents of
               Inl e \<Rightarrow> Inl e
             | Inr pkgJSON \<Rightarrow>
                 (case pkgJSON ''dependencies'' of
                    None \<Rightarrow> Inr []
                  | Some deps \<Rightarrow>
                      (case typeName deps of
                         None \<Rightarrow> Inl Panic
                       | Some ty \<Rightarrow>
                           if ty \<noteq> ''map[string]string'' then Inl UnexpectedFormat
                           else nodeDeps deps)))
          else Inl Unsupported)"

subsection \<open>GetDepChanges\<close>

text \<open>
  The last loop of \<open>GetDepChanges\<close>: the set \<open>removedDeps\<close> and the list \<open>Added\<close> as
  the current dependencies go by. The set is kept as a list without repetition; Go
  leaves the order in which it is read out at the end open.
\<close>

fun diffDeps :: "string list \<Rightarrow> string list \<times> string list \<Rightarrow> string list \<times> string list" where
  "diffDeps [] (removedDeps, added) = (removedDeps, added)"
| "diffDeps (d # ds) (removedDeps, added) =
     (if d \<in> set removedDeps then diffDeps ds (removeAll d removedDeps, added)
      else diffDeps ds (removedDeps, added @ [d]))"

text \<open>
  The error of \<open>GetProgInfo\<close> is never looked at, and the error of \<open>GetRuntime\<close> in the
  branch for an empty dependency list is overwritten by the next declaration of \<open>err\<close>.
\<close>

definition GetDepChanges ::
  "progInfoParser \<Rightarrow> jsonParser \<Rightarrow> Manager \<Rightarrow> disk \<Rightarrow> error + DepChanges" where
  "GetDepChanges P U m d =
     (case fst (GetProgInfo P d) of
        None \<Rightarrow>
          (case GetRuntime m d of
             Inl e \<Rightarrow> Inl e
           | Inr runtime \<Rightarrow>
               (case readDeps U m d runtime of
                  Inl e \<Rightarrow> Inl e
                | Inr deps \<Rightarrow> Inr \<lparr>Added = deps, Removed = []\<rparr>))
      | Some progInfo \<Rightarrow>
          if length (Deps progInfo) = 0 then
            (let runtime =
                   (if Runtime progInfo = []
                    then (case GetRuntime m d of Inl e \<Rightarrow> [] | Inr r \<Rightarrow> r)
                    else Runtime progInfo)
             in case readDeps U m d runtime of
                  Inl e \<Rightarrow> Inl e
                | Inr deps \<Rightarrow> Inr \<lparr>Added = deps, Removed = []\<rparr>)
          else
            (case readDeps U m d (Runtime progInfo) of
               Inl e \<Rightarrow> Inl e
             | Inr deps \<Rightarrow>
                 (case diffDeps deps (remdups (Deps progInfo), []) of
                    (removedDeps, added) \<Rightarrow> Inr \<lparr>Added = added, Removed = removedDeps\<rparr>)))"

section \<open>What a walk can reach\<close>

text \<open>
  The paths of all files below a node that a walk entering every directory reaches,
  in the order of the walk. Nothing is known of the entries of a directory that cannot
  be listed.
\<close>

fun files_of :: "string \<Rightarrow> node \<Rightarrow> string list"
  and files_of_names :: "string \<Rightarrow> (string \<times> node) list \<Rightarrow> string list"
where
  "files_of p (File c) = [p]"
| "files_of p (Dir ok es) = (if ok then files_of_names p es else [])"
| "files_of_names p [] = []"
| "files_of_names p (e # es) = files_of (join p (fst e)) (snd e) @ files_of_names p es"

text \<open>The runtimes of the entry point files among them, one for each such file.\<close>

definition entry_runtimes :: "string \<Rightarrow> node \<Rightarrow> string list" where
  "entry_runtimes p t = List.map_filter (\<lambda>q. entryPoints (base q)) (files_of p t)"

text \<open>What \<open>GetRuntime\<close>'s walk function does along a list of file paths.\<close>

fun scan :: "string list \<Rightarrow> string \<times> bool \<Rightarrow> (string \<times> bool) \<times> ret" where
  "scan [] s = (s, Nil)"
| "scan (q # qs) (rt, found) =
     (case entryPoints (base q) of
        None \<Rightarrow> scan qs (rt, found)
      | Some r \<Rightarrow> if found then ((rt, found), Err Conflicting) else scan qs (r, True))"

text \<open>
  The files that a walk skipping hidden names visits, each with what reading it gives,
  in the order of the walk: those that are not hidden and lie below no hidden directory.
\<close>

fun visible :: "string \<Rightarrow> node \<Rightarrow> (string \<times> string option) list"
  and visible_names :: "string \<Rightarrow> (string \<times> node) list \<Rightarrow> (string \<times> string option) list"
where
  "visible p (File c) = (if isHidden p then [] else [(p, c)])"
| "visible p (Dir ok es) = (if isHidden p \<or> \<not> ok then [] else visible_names p es)"
| "visible_names p [] = []"
| "visible_names p (e # es) = visible (join p (fst e)) (snd e) @ visible_names p es"

text \<open>
  A node is clean when a walk skipping hidden names meets no error below it: every
  directory it comes to can be listed and every file it visits can be read.
\<close>

fun clean :: "string \<Rightarrow> node \<Rightarrow> bool"
  and clean_names :: "string \<Rightarrow> (string \<times> node) list \<Rightarrow> bool"
where
  "clean p (File c) = (isHidden p \<or> c \<noteq> None)"
| "clean p (Dir ok es) = (ok \<and> (isHidden p \<or> clean_names p es))"
| "clean_names p [] = True"
| "clean_names p (e # es) = (clean (join p (fst e)) (snd e) \<and> clean_names p es)"



text \<open>What the walk function of \<open>GetChanges\<close> does at a visited file that can be read.\<close>

fun gc_step ::
  "(string \<Rightarrow> string) \<Rightarrow> stateMap \<Rightarrow> string \<times> string option \<Rightarrow>
   string set \<times> (string \<rightharpoonup> string) \<Rightarrow> string set \<times> (string \<rightharpoonup> string)" where
  "gc_step H st (q, Some b) (dl, ch) =
     (dl - {q}, if lookup0 st q \<noteq> H b then ch(q \<mapsto> b) else ch)"
| "gc_step H st (q, None) (dl, ch) = (dl - {q}, ch)"

text \<open>What the walk function of \<open>storeState\<close> does at a visited file that can be read.\<close>

fun ss_step :: "(string \<Rightarrow> string) \<Rightarrow> string \<times> string option \<Rightarrow> stateMap \<Rightarrow> stateMap" where
  "ss_step H (q, Some b) sm = sm(q \<mapsto> H b)"
| "ss_step H (q, None) sm = sm"

text \<open>And the walk function of \<open>readAll\<close>.\<close>

fun ra_step :: "string \<times> string option \<Rightarrow> (string \<rightharpoonup> string) \<Rightarrow> (string \<rightharpoonup> string)" where
  "ra_step (q, Some b) ch = ch(q \<mapsto> b)"
| "ra_step (q, None) ch = ch"


section \<open>Concrete disks\<close>

definition mgr :: Manager where
  "mgr = \<lparr>rootDir = ''r''\<rparr>"

text \<open>
  A project with an unreadable \<open>a.py\<close> and a readable \<open>b.py\<close>, whose stored snapshot
  holds both files with the fingerprints of their present contents.
\<close>

definition disk_unreadable :: disk where
  "disk_unreadable =
     \<lparr>tree = Dir True [(''a.py'', File None), (''b.py'', File (Some ''x''))],
      stateFile = Parsed [''r/a.py'' \<mapsto> pad64 ''y'', ''r/b.py'' \<mapsto> pad64 ''x''],
      progInfoFile = Inl NotExist,
      cwdIn = None,
      cwdFiles = (\<lambda>n. Inl NotExist)\<rparr>"

text \<open>
  A Node project: \<open>index.js\<close> and a \<open>package.json\<close> with two dependencies, the stored
  program info naming one of them. The stand-in parsers know these documents; the text
  of the manifest is written here without its quotation marks, and \<open>pkg_json\<close> is what
  \<open>json.Unmarshal\<close> decodes the real bytes to.
\<close>

definition pkg_text :: string where
  "pkg_text = ''{dependencies: {flask: 1.0, requests: 2.0}}''"

definition pkg_json :: json where
  "pkg_json = JObject [(''dependencies'',
     JObject [(''flask'', JString ''1.0''), (''requests'', JString ''2.0'')])]"

definition parse_json :: jsonParser where
  "parse_json s = (if s = pkg_text then Some pkg_json else None)"

definition parse_info :: progInfoParser where
  "parse_info s =
     (if s = ''node-flask'' then (Some \<lparr>Runtime = Node, Deps = [''flask@1.0'']\<rparr>, None)
      else if s = ''python-flask'' then (Some \<lparr>Runtime = Python, Deps = [''flask'']\<rparr>, None)
      else (None, Some CorruptState))"

definition disk_node :: disk where
  "disk_node =
     \<lparr>tree = Dir True [(''index.js'', File (Some ''x'')), (''package.json'', File (Some pkg_text))],
      stateFile = Missing,
      progInfoFile = Inr ''node-flask'',
      cwdIn = None,
      cwdFiles = (\<lambda>n. if n = ''package.json'' then Inr pkg_text else Inl NotExist)\<rparr>"

text \<open>
  A Python project whose \<open>requirements.txt\<close> names \<open>flask\<close> on two lines, with \<open>flask\<close>
  as the stored dependency list.
\<close>

definition disk_python :: disk where
  "disk_python =
     \<lparr>tree = Dir True [(''main.py'', File (Some ''x''))],
      stateFile = Missing,
      progInfoFile = Inr ''python-flask'',
      cwdIn = None,
      cwdFiles = (\<lambda>n. if n = ''requirements.txt'' then Inr [CHR ''f'', CHR ''l'', CHR ''a'', CHR ''s'', CHR ''k'', CHR 0x0A, CHR ''f'', CHR ''l'', CHR ''a'', CHR ''s'', CHR ''k'']
                      else Inl NotExist)\<rparr>"

text \<open>Two \<open>main.py\<close> in different directories, and no other entry point.\<close>

definition disk_two_main :: disk where
  "disk_two_main =
     \<lparr>tree = Dir True [(''main.py'', File (Some ''x'')),
                       (''sub'', Dir True [(''main.py'', File (Some ''y''))])],
      stateFile = Missing,
      progInfoFile = Inl NotExist,
      cwdIn = None,
      cwdFiles = (\<lambda>n. Inl NotExist)\<rparr>"

definition disk_corrupt_info :: disk where
  "disk_corrupt_info = disk_python\<lparr>progInfoFile := Inr ''garbage''\<rparr>"

text \<open>
  A project with a hidden directory, before and after the file in it changed.
\<close>

definition disk_hidden :: disk where
  "disk_hidden =
     \<lparr>tree = Dir True [(''.git'', Dir True [(''config'', File (Some ''x''))]),
                       (''a.py'', File (Some ''y''))],
      stateFile = Missing,
      progInfoFile = Inl NotExist,
      cwdIn = None,
      cwdFiles = (\<lambda>n. Inl NotExist)\<rparr>"


text \<open>
  An unreadable \<open>a.py\<close> before a \<open>b.py\<close> whose content is no longer the one of the
  stored snapshot.
\<close>

definition disk_unreadable_changed :: disk where
  "disk_unreadable_changed =
     \<lparr>tree = Dir True [(''a.py'', File None), (''b.py'', File (Some ''x''))],
      stateFile = Parsed [''r/b.py'' \<mapsto> pad64 ''old''],
      progInfoFile = Inl NotExist,
      cwdIn = None,
      cwdFiles = (\<lambda>n. Inl NotExist)\<rparr>"

text \<open>A directory \<open>a\<close> that cannot be listed before a file \<open>b.py\<close>, and no snapshot yet.\<close>

definition disk_unlistable :: disk where
  "disk_unlistable =
     \<lparr>tree = Dir True [(''a'', Dir False []), (''b.py'', File (Some ''x''))],
      stateFile = Missing,
      progInfoFile = Inl NotExist,
      cwdIn = None,
      cwdFiles = (\<lambda>n. Inl NotExist)\<rparr>"

text \<open>
  A Python project on its first run, with the working directory outside the project
  tree.
\<close>

definition disk_first_run :: disk where
  "disk_first_run = disk_python\<lparr>progInfoFile := Inl NotExist\<rparr>"

text \<open>
  A Python project on its first run whose working directory is its subdirectory \<open>sub\<close>.
  The root and \<open>sub\<close> each hold a \<open>requirements.txt\<close>.
\<close>

definition disk_cwd_below :: disk where
  "disk_cwd_below =
     \<lparr>tree = Dir True [(''main.py'', File (Some ''x'')),
                       (''requirements.txt'', File (Some ''flask'')),
                       (''sub'', Dir True [(''requirements.txt'', File (Some ''django''))])],
      stateFile = Missing,
      progInfoFile = Inl NotExist,
      cwdIn = Some [''sub''],
      cwdFiles = (\<lambda>n. Inl NotExist)\<rparr>"


section \<open>Properties\<close>

lemmas eval_defs =
  Walk_def join_def isHidden_def base_def calcChecksum_def lookup0_def pad64_def
  getStoredState_def

text \<open>
  Claim C2 says that \<open>GetChanges\<close> returns an error and no result when a file cannot be
  read during the walk. On the disk above the walk stops at the unreadable \<open>a.py\<close>, and
  \<open>GetChanges\<close> still returns a result with a \<open>nil\<close> error: no change, and \<open>b.py\<close>,
  which the walk never reached, reported as deleted.
\<close>

theorem GetChanges_unreadable_file:
  "fst (GetChanges pad64 mgr disk_unreadable) =
     Inr \<lparr>Changes = Map.empty, Deletions = {''r/b.py''}\<rparr>"
  by (auto simp: GetChanges_def mgr_def disk_unreadable_def eval_defs)

subsection \<open>Runtime resolution\<close>

lemma scan_append:
  "scan (xs @ ys) s = (case scan xs s of (s1, r) \<Rightarrow> if r = Nil then scan ys s1 else (s1, r))"
  by (induction xs s rule: scan.induct) (auto split: option.splits)

lemma scan_not_skip: "snd (scan xs s) \<noteq> SkipDir"
  by (induction xs s rule: scan.induct) (auto split: option.splits)

lemma walk_GetRuntime_scan:
  "walk GetRuntime_fn p t s = scan (files_of p t) s"
  "walk_names GetRuntime_fn p es s = scan (files_of_names p es) s"
proof (induction GetRuntime_fn p t s and GetRuntime_fn p es s rule: walk_walk_names.induct)
  case (1 p c s)
  then show ?case by (cases s) (auto split: option.splits)
next
  case (2 p ok es s)
  then show ?case by (cases s) auto
next
  case (3 p s)
  then show ?case by simp
next
  case (4 p e es s)
  obtain s1 r where w: "walk GetRuntime_fn (join p (fst e)) (snd e) s = (s1, r)"
    by (cases "walk GetRuntime_fn (join p (fst e)) (snd e) s")
  with 4 have sc: "scan (files_of (join p (fst e)) (snd e)) s = (s1, r)" by simp
  have ns: "r \<noteq> SkipDir"
    using scan_not_skip[of "files_of (join p (fst e)) (snd e)" s] sc by simp
  show ?case
  proof (cases "r = Nil")
    case True
    with 4 w sc show ?thesis by (simp add: scan_append)
  next
    case False
    with w sc ns show ?thesis by (simp add: scan_append)
  qed
qed

lemma scan_found:
  "scan qs (rt, True) =
     ((rt, True),
      if List.map_filter (\<lambda>q. entryPoints (base q)) qs = [] then Nil else Err Conflicting)"
  by (induction qs) (auto split: option.splits)

lemma scan_fresh:
  "scan qs (rt, False) =
     (case List.map_filter (\<lambda>q. entryPoints (base q)) qs of
        [] \<Rightarrow> ((rt, False), Nil)
      | [r] \<Rightarrow> ((r, True), Nil)
      | r # _ # _ \<Rightarrow> ((r, True), Err Conflicting))"
  by (induction qs) (auto simp: scan_found split: option.splits list.splits)

lemmas dep_defs =
  GetDepChanges_def GetProgInfo_def GetRuntime_def readDeps_def readFile_def depFiles_def
  entryPoints_def Python_def Node_def unmarshalMap_def Walk_def join_def base_def lookup0_def

text \<open>
  \<open>GetRuntime\<close> counts entry point files, not runtimes: on a tree whose entries can all
  be inspected it fails with the conflict error as soon as a second entry point file is
  reachable, in whatever directory and of whatever runtime.
\<close>

lemma GetRuntime_counts_files:
  "GetRuntime m d =
     (case entry_runtimes (rootDir m) (tree d) of
        [] \<Rightarrow> Inl NoRuntime
      | [r] \<Rightarrow> Inr r
      | _ # _ # _ \<Rightarrow> Inl Conflicting)"
  by (simp add: GetRuntime_def Walk_def walk_GetRuntime_scan scan_fresh entry_runtimes_def
      split: list.splits)

text \<open>
  Claim C5 says that runtime resolution fails with the conflict error exactly when
  entry point files of more than one distinct runtime are found, so that two \<open>main.py\<close>
  in different directories do not make it fail. With \<open>main.py\<close> in the root directory
  and a second \<open>main.py\<close> in a subdirectory, the only runtime found is Python, and
  \<open>GetRuntime\<close> fails with the conflict error.
\<close>

theorem GetRuntime_same_runtime_conflict:
  "GetRuntime mgr disk_two_main = Inl Conflicting \<and>
   set (entry_runtimes (rootDir mgr) (tree disk_two_main)) = {Python}"
  by (simp add: dep_defs disk_two_main_def mgr_def entry_runtimes_def)

subsection \<open>Reading the manifest\<close>

text \<open>
  Whatever a \<open>package.json\<close> holds, \<open>readDeps\<close> never returns a dependency of a Node
  project: the decoded \<open>dependencies\<close> value is never of type \<open>map[string]string\<close>.
\<close>

lemma typeName_never_string_map: "typeName j \<noteq> Some ''map[string]string''"
  by (cases j) simp_all

lemma readDeps_Node_empty:
  assumes "readDeps U m d Node = Inr deps"
  shows "deps = []"
  using assms typeName_never_string_map
  by (auto simp: readDeps_def Node_def Python_def split: sum.splits option.splits if_splits)

text \<open>
  Claim C3 says that \<open>readDeps\<close> succeeds on a Node manifest whose \<open>dependencies\<close> are
  a flat mapping of strings, and that with flask 1.0 and requests 2.0 declared and
  flask@1.0 stored \<open>GetDepChanges\<close> adds requests@2.0. On that very project both fail
  with the error for an unexpected format.
\<close>

theorem readDeps_flat_dependencies:
  "readDeps parse_json mgr disk_node Node = Inl UnexpectedFormat \<and>
   GetDepChanges parse_info parse_json mgr disk_node = Inl UnexpectedFormat"
  by (simp add: dep_defs disk_node_def parse_json_def pkg_json_def parse_info_def)

text \<open>
  Claim C10, as stated: whenever the root directory is not the working directory, the
  manifest that is read lies outside the project root, or none is found. With the
  working directory in the subdirectory \<open>sub\<close> of the project, the manifest read is
  \<open>sub/requirements.txt\<close>, a file of the project tree, and its one line is returned as
  the added dependency.
\<close>

theorem manifest_read_below_root:
  "\<not> (cwdIn disk_cwd_below \<noteq> Some [] \<longrightarrow>
        cwdIn disk_cwd_below = None \<or>
        readFile disk_cwd_below ''requirements.txt'' = Inl NotExist) \<and>
   readFile disk_cwd_below ''requirements.txt'' =
     openIn (tree disk_cwd_below) [''sub'', ''requirements.txt''] \<and>
   GetDepChanges parse_info parse_json mgr disk_cwd_below =
     Inr \<lparr>Added = [''django''], Removed = []\<rparr>"
  by (simp add: dep_defs disk_cwd_below_def mgr_def)

text \<open>
  Claim C10, amended: \<open>readDeps\<close> opens the bare file name of \<open>depFiles\<close>, which holds no
  path separator and is not joined to the root directory, so the file read is the one
  of that name in the working directory of the process: a file outside the project
  when the working directory lies outside the project tree, and the file of that name
  in a subdirectory of the project when the working directory is that subdirectory.
  What the read returns decides the result: no such file gives no dependency, another
  error is returned, the lines of a \<open>requirements.txt\<close> are the dependencies; and on a
  first run \<open>GetDepChanges\<close> returns them all as added.
\<close>

theorem manifest_read_in_working_directory:
  assumes "depFiles runtime = Some f"
  shows "CHR ''/'' \<notin> set f \<and>
    (cwdIn d = None \<longrightarrow> readFile d f = cwdFiles d f) \<and>
    (cwdIn d = Some ns \<longrightarrow> readFile d f = openIn (tree d) (ns @ [f])) \<and>
    (readFile d f = Inl e \<longrightarrow>
       readDeps U m d runtime = (if e = NotExist then Inr [] else Inl e)) \<and>
    (readFile d f = Inr c \<and> runtime = Python \<longrightarrow>
       readDeps U m d runtime = Inr (split_on (CHR 0x0A) c)) \<and>
    (fst (GetProgInfo P d) = None \<and> GetRuntime m d = Inr runtime \<longrightarrow>
       GetDepChanges P U m d =
         (case readDeps U m d runtime of
            Inl e' \<Rightarrow> Inl e'
          | Inr deps \<Rightarrow> Inr \<lparr>Added = deps, Removed = []\<rparr>))"
proof -
  from assms have f: "f = ''requirements.txt'' \<or> f = ''package.json''"
    by (auto simp: depFiles_def split: if_splits)
  then have ne: "f \<noteq> []" and sep: "CHR ''/'' \<notin> set f" by auto
  from assms have l: "lookup0 depFiles runtime = f" by (simp add: lookup0_def)
  have a: "cwdIn d = None \<longrightarrow> readFile d f = cwdFiles d f"
    using ne by (simp add: readFile_def)
  have b: "cwdIn d = Some ns \<longrightarrow> readFile d f = openIn (tree d) (ns @ [f])"
    using ne by (simp add: readFile_def)
  have c: "readFile d f = Inl e \<longrightarrow>
             readDeps U m d runtime = (if e = NotExist then Inr [] else Inl e)"
    by (simp add: readDeps_def l)
  have d: "readFile d f = Inr c \<and> runtime = Python \<longrightarrow>
             readDeps U m d runtime = Inr (split_on (CHR 0x0A) c)"
    using l by (auto simp: readDeps_def)
  have e: "fst (GetProgInfo P d) = None \<and> GetRuntime m d = Inr runtime \<longrightarrow>
             GetDepChanges P U m d =
               (case readDeps U m d runtime of
                  Inl e' \<Rightarrow> Inl e'
                | Inr deps \<Rightarrow> Inr \<lparr>Added = deps, Removed = []\<rparr>)"
    by (simp add: GetDepChanges_def)
  from sep a b c d e show ?thesis by blast
qed

theorem manifest_read_in_working_directory_witness:
  "depFiles Python = Some ''requirements.txt'' \<and>
   cwdIn disk_first_run = None \<and>
   readDeps parse_json mgr disk_first_run Python = Inr [''flask'', ''flask''] \<and>
   GetDepChanges parse_info parse_json mgr disk_first_run =
     Inr \<lparr>Added = [''flask'', ''flask''], Removed = []\<rparr> \<and>
   cwdIn disk_cwd_below = Some [''sub''] \<and>
   readFile disk_cwd_below ''requirements.txt'' = Inr ''django'' \<and>
   readDeps parse_json mgr disk_cwd_below Python = Inr [''django''] \<and>
   readFile disk_two_main ''requirements.txt'' = Inl NotExist \<and>
   readDeps parse_json mgr disk_two_main Python = Inr []"
proof -
  have f: "depFiles Python = Some ''requirements.txt''"
    by (simp add: depFiles_def Python_def Node_def)
  note t1 = manifest_read_in_working_directory[OF f,
      where d = disk_first_run and U = parse_json and m = mgr and P = parse_info
        and c = "[CHR ''f'', CHR ''l'', CHR ''a'', CHR ''s'', CHR ''k'', CHR 0x0A,
                  CHR ''f'', CHR ''l'', CHR ''a'', CHR ''s'', CHR ''k'']"]
  note t2 = manifest_read_in_working_directory[OF f,
      where d = disk_cwd_below and U = parse_json and m = mgr and ns = "[''sub'']"
        and c = "''django''"]
  note t3 = manifest_read_in_working_directory[OF f,
      where d = disk_two_main and U = parse_json and m = mgr and e = NotExist]
  have o1: "cwdIn disk_first_run = None"
    by (simp add: disk_first_run_def disk_python_def)
  have c1: "cwdFiles disk_first_run ''requirements.txt'' =
              Inr [CHR ''f'', CHR ''l'', CHR ''a'', CHR ''s'', CHR ''k'', CHR 0x0A,
                   CHR ''f'', CHR ''l'', CHR ''a'', CHR ''s'', CHR ''k'']"
    by (simp add: disk_first_run_def disk_python_def)
  have p1: "fst (GetProgInfo parse_info disk_first_run) = None"
    by (simp add: GetProgInfo_def disk_first_run_def)
  have g1: "GetRuntime mgr disk_first_run = Inr Python"
    by (simp add: GetRuntime_def Walk_def disk_first_run_def disk_python_def mgr_def
        entryPoints_def join_def base_def)
  from t1 o1 c1 have r1: "readDeps parse_json mgr disk_first_run Python = Inr [''flask'', ''flask'']"
    by simp
  from t1 p1 g1 r1 have d1: "GetDepChanges parse_info parse_json mgr disk_first_run =
      Inr \<lparr>Added = [''flask'', ''flask''], Removed = []\<rparr>"
    by simp
  have o2: "cwdIn disk_cwd_below = Some [''sub'']"
    by (simp add: disk_cwd_below_def)
  from t2 o2 have f2: "readFile disk_cwd_below ''requirements.txt'' = Inr ''django''"
    by (simp add: disk_cwd_below_def)
  from t2 f2 have r2: "readDeps parse_json mgr disk_cwd_below Python = Inr [''django'']"
    by simp
  have o3: "cwdIn disk_two_main = None" by (simp add: disk_two_main_def)
  from t3 o3 have f3: "readFile disk_two_main ''requirements.txt'' = Inl NotExist"
    by (simp add: disk_two_main_def)
  from t3 f3 have r3: "readDeps parse_json mgr disk_two_main Python = Inr []"
    by simp
  from f o1 r1 d1 o2 f2 r2 f3 r3 show ?thesis by blast
qed

subsection \<open>The dependency diff\<close>

text \<open>An error of \<open>GetProgInfo\<close> that comes with no program info is a first run.\<close>

lemma readFile_progInfoFile:
  "readFile (d\<lparr>progInfoFile := x\<rparr>) path = readFile d path"
  by (simp add: readFile_def split: option.splits)

lemma readDeps_progInfoFile:
  "readDeps U m (d\<lparr>progInfoFile := x\<rparr>) runtime = readDeps U m d runtime"
  by (simp add: readDeps_def readFile_progInfoFile)

lemma GetRuntime_progInfoFile:
  "GetRuntime m (d\<lparr>progInfoFile := x\<rparr>) = GetRuntime m d"
  by (simp add: GetRuntime_def)

lemma GetDepChanges_swallows:
  assumes "fst (GetProgInfo P d) = None"
  shows "GetDepChanges P U m d = GetDepChanges P U m (d\<lparr>progInfoFile := Inl NotExist\<rparr>)"
proof -
  have "fst (GetProgInfo P (d\<lparr>progInfoFile := Inl NotExist\<rparr>)) = None"
    by (simp add: GetProgInfo_def)
  with assms show ?thesis
    unfolding GetDepChanges_def
    by (simp only: readDeps_progInfoFile GetRuntime_progInfoFile option.case)
qed

text \<open>
  Claim C4 says that a program info file that does not parse makes \<open>GetDepChanges\<close>
  fail. Here \<open>GetProgInfo\<close> fails with the parse error, and \<open>GetDepChanges\<close> returns what
  it returns on a first run: every line of \<open>requirements.txt\<close> as an addition.
\<close>

theorem GetDepChanges_corrupt_info:
  "GetProgInfo parse_info disk_corrupt_info = (None, Some CorruptState) \<and>
   GetDepChanges parse_info parse_json mgr disk_corrupt_info =
     Inr \<lparr>Added = [''flask'', ''flask''], Removed = []\<rparr>"
  by (simp add: dep_defs disk_corrupt_info_def disk_python_def parse_info_def mgr_def)

text \<open>
  Where the current list holds no identifier twice, the loop computes the two set
  differences.
\<close>

lemma diffDeps_distinct:
  "distinct ds \<Longrightarrow>
   diffDeps ds (removedDeps, added) =
     (filter (\<lambda>x. x \<notin> set ds) removedDeps, added @ filter (\<lambda>x. x \<notin> set removedDeps) ds)"
proof (induction ds arbitrary: removedDeps added)
  case Nil
  then show ?case by simp
next
  case (Cons d ds)
  have f: "filter (\<lambda>x. x \<notin> set (removeAll d removedDeps)) ds =
           filter (\<lambda>x. x \<notin> set removedDeps) ds"
    using Cons.prems by (intro filter_cong) auto
  have g: "filter (\<lambda>x. x \<notin> set ds) (removeAll d removedDeps) =
           filter (\<lambda>x. x \<noteq> d \<and> x \<notin> set ds) removedDeps"
    by (induction removedDeps) auto
  from Cons.prems have dis: "distinct ds" and nd: "d \<notin> set ds" by simp_all
  show ?case
  proof (cases "d \<in> set removedDeps")
    case True
    then show ?thesis using Cons.IH[OF dis, of "removeAll d removedDeps" added] f g by simp
  next
    case False
    have h: "filter (\<lambda>x. x \<noteq> d \<and> x \<notin> set ds) removedDeps =
             filter (\<lambda>x. x \<notin> set ds) removedDeps"
      using False by (intro filter_cong) auto
    from False show ?thesis using Cons.IH[OF dis, of removedDeps "added @ [d]"] h by simp
  qed
qed

lemma diffDeps_same_set:
  assumes "distinct ds" and "set ds = set stored"
  shows "diffDeps ds (remdups stored, []) = ([], [])"
  using assms by (simp add: diffDeps_distinct filter_empty_conv)

text \<open>
  Claim C7 says that equal identifier sets give no addition and no removal, also when
  the current list repeats an identifier. With \<open>flask\<close> on two lines of the manifest
  and \<open>flask\<close> stored, the second occurrence is reported as added.
\<close>

theorem GetDepChanges_repeated_identifier:
  "GetDepChanges parse_info parse_json mgr disk_python =
     Inr \<lparr>Added = [''flask''], Removed = []\<rparr>"
  by (simp add: dep_defs disk_python_def parse_info_def)

subsection \<open>Walks in general\<close>



lemma walk_clean_aux:
  fixes f :: "'s walkFn" and g :: "string \<times> string option \<Rightarrow> 's \<Rightarrow> 's"
  assumes dirs: "\<And>p es s. f p (Dir True es) False s = (s, if isHidden p then SkipDir else Nil)"
    and hid: "\<And>p c s. isHidden p \<Longrightarrow> f p (File c) False s = (s, Nil)"
    and vis: "\<And>p b s. \<not> isHidden p \<Longrightarrow> f p (File (Some b)) False s = (g (p, Some b) s, Nil)"
  shows "f' = f \<Longrightarrow> clean p t \<Longrightarrow>
           walk f' p t s = (fold g (visible p t) s, if isDir t \<and> isHidden p then SkipDir else Nil)"
    and "f' = f \<Longrightarrow> clean_names p es \<Longrightarrow>
           walk_names f' p es s = (fold g (visible_names p es) s, Nil)"
proof (induction f' p t s and f' p es s rule: walk_walk_names.induct)
  case (1 f' p c s)
  then show ?case using hid vis by (cases c) auto
next
  case (2 f' p ok es s)
  then show ?case using dirs by auto
next
  case (3 f' p s)
  then show ?case by simp
next
  case (4 f' p e es s)
  then show ?case by auto
qed





subsection \<open>Hidden names\<close>













subsection \<open>Walks that meet no error\<close>


lemma clean_visible_readable:
  "clean p t \<Longrightarrow> (q, c) \<in> set (visible p t) \<Longrightarrow> c \<noteq> None"
  "clean_names p es \<Longrightarrow> (q, c) \<in> set (visible_names p es) \<Longrightarrow> c \<noteq> None"
  by (induction p t and p es rule: visible_visible_names.induct) (auto split: if_splits)

lemma GetChanges_walk_clean:
  assumes "clean p t"
  shows "fst (walk (GetChanges_fn H st) p t s) = fold (gc_step H st) (visible p t) s"
proof -
  have "walk (GetChanges_fn H st) p t s =
          (fold (gc_step H st) (visible p t) s, if isDir t \<and> isHidden p then SkipDir else Nil)"
  proof (rule walk_clean_aux(1)[where f = "GetChanges_fn H st", OF _ _ _ refl assms])
    fix p s
    show "GetChanges_fn H st p (Dir True es) False s = (s, if isHidden p then SkipDir else Nil)" for es
      by (cases s) simp
    show "isHidden p \<Longrightarrow> GetChanges_fn H st p (File c) False s = (s, Nil)" for c
      by (cases s) simp
    show "\<not> isHidden p \<Longrightarrow>
            GetChanges_fn H st p (File (Some b)) False s = (gc_step H st (p, Some b) s, Nil)" for b
      by (cases s) (simp add: calcChecksum_def)
  qed
  then show ?thesis by simp
qed

lemma fold_gc_deletions:
  "fst (fold (gc_step H st) vs (dl, ch)) = dl - fst ` set vs"
proof (induction vs arbitrary: dl ch)
  case Nil
  show ?case by simp
next
  case (Cons v vs)
  obtain q c where v: "v = (q, c)" by (cases v)
  obtain ch' where g: "gc_step H st v (dl, ch) = (dl - {q}, ch')"
    using v by (cases c) auto
  have "fst (fold (gc_step H st) (v # vs) (dl, ch)) = fst (fold (gc_step H st) vs (dl - {q}, ch'))"
    by (simp add: g)
  also have "\<dots> = dl - {q} - fst ` set vs" by (rule Cons.IH)
  also have "\<dots> = dl - fst ` set (v # vs)" using v by auto
  finally show ?case .
qed

lemma fold_gc_changes:
  "(snd (fold (gc_step H st) vs (dl, ch)) x \<noteq> None) =
     (ch x \<noteq> None \<or> (\<exists>b. (x, Some b) \<in> set vs \<and> lookup0 st x \<noteq> H b))"
proof (induction vs arbitrary: dl ch)
  case Nil
  show ?case by simp
next
  case (Cons v vs)
  let ?R = "\<lambda>vs. \<exists>b. (x, Some b) \<in> set vs \<and> lookup0 st x \<noteq> H b"
  obtain q c where v: "v = (q, c)" by (cases v)
  obtain dl' ch' where g: "gc_step H st v (dl, ch) = (dl', ch')"
    by (cases "gc_step H st v (dl, ch)")
  have step: "(ch' x \<noteq> None \<or> ?R vs) = (ch x \<noteq> None \<or> ?R (v # vs))"
  proof (cases c)
    case None
    with v g show ?thesis by auto
  next
    case (Some b)
    with v g show ?thesis by (cases "x = q"; cases "lookup0 st q = H b") auto
  qed
  have "(snd (fold (gc_step H st) (v # vs) (dl, ch)) x \<noteq> None) =
          (snd (fold (gc_step H st) vs (dl', ch')) x \<noteq> None)"
    by (simp add: g)
  also have "\<dots> = (ch' x \<noteq> None \<or> ?R vs)" by (rule Cons.IH)
  also note step
  finally show ?case .
qed


lemma storeState_walk_clean:
  assumes "clean p t"
  shows "fst (walk (storeState_fn H) p t s) = fold (ss_step H) (visible p t) s"
proof -
  have "walk (storeState_fn H) p t s =
          (fold (ss_step H) (visible p t) s, if isDir t \<and> isHidden p then SkipDir else Nil)"
  proof (rule walk_clean_aux(1)[where f = "storeState_fn H", OF _ _ _ refl assms])
    fix p s
    show "storeState_fn H p (Dir True es) False s = (s, if isHidden p then SkipDir else Nil)" for es
      by simp
    show "isHidden p \<Longrightarrow> storeState_fn H p (File c) False s = (s, Nil)" for c
      by simp
    show "\<not> isHidden p \<Longrightarrow>
            storeState_fn H p (File (Some b)) False s = (ss_step H (p, Some b) s, Nil)" for b
      by (simp add: calcChecksum_def)
  qed
  then show ?thesis by simp
qed

lemma readAll_walk_clean:
  assumes "clean p t"
  shows "fst (walk readAll_fn p t s) = fold ra_step (visible p t) s"
proof -
  have "walk readAll_fn p t s =
          (fold ra_step (visible p t) s, if isDir t \<and> isHidden p then SkipDir else Nil)"
  proof (rule walk_clean_aux(1)[where f = readAll_fn, OF _ _ _ refl assms])
    fix p s
    show "readAll_fn p (Dir True es) False s = (s, if isHidden p then SkipDir else Nil)" for es
      by simp
    show "isHidden p \<Longrightarrow> readAll_fn p (File c) False s = (s, Nil)" for c
      by simp
    show "\<not> isHidden p \<Longrightarrow> readAll_fn p (File (Some b)) False s = (ra_step (p, Some b) s, Nil)" for b
      by simp
  qed
  then show ?thesis by simp
qed

lemma walk_clean_no_error:
  assumes "clean p t"
  shows "snd (walk (storeState_fn H) p t s) \<noteq> Err e"
    and "snd (walk readAll_fn p t s') \<noteq> Err e"
proof -
  have "walk (storeState_fn H) p t s =
          (fold (ss_step H) (visible p t) s, if isDir t \<and> isHidden p then SkipDir else Nil)"
    by (rule walk_clean_aux(1)[where f = "storeState_fn H", OF _ _ _ refl assms])
       (simp_all add: calcChecksum_def)
  then show "snd (walk (storeState_fn H) p t s) \<noteq> Err e" by simp
  have "walk readAll_fn p t s' =
          (fold ra_step (visible p t) s', if isDir t \<and> isHidden p then SkipDir else Nil)"
    by (rule walk_clean_aux(1)[where f = readAll_fn, OF _ _ _ refl assms]) simp_all
  then show "snd (walk readAll_fn p t s') \<noteq> Err e" by simp
qed

lemma fold_ss_step_other:
  "q \<notin> fst ` set vs \<Longrightarrow> fold (ss_step H) vs sm q = sm q"
proof (induction vs arbitrary: sm)
  case Nil
  show ?case by simp
next
  case (Cons v vs)
  obtain p c where v: "v = (p, c)" by (cases v)
  with Cons.prems have n: "q \<noteq> p" and r: "q \<notin> fst ` set vs" by auto
  have "fold (ss_step H) (v # vs) sm q = fold (ss_step H) vs (ss_step H v sm) q" by simp
  also have "\<dots> = ss_step H v sm q" by (rule Cons.IH[OF r])
  also have "\<dots> = sm q" using v n by (cases c) simp_all
  finally show ?case .
qed

lemma fold_ss_step_at:
  "distinct (map fst vs) \<Longrightarrow> (q, Some b) \<in> set vs \<Longrightarrow> fold (ss_step H) vs sm q = Some (H b)"
proof (induction vs arbitrary: sm)
  case Nil
  then show ?case by simp
next
  case (Cons v vs)
  show ?case
  proof (cases "v = (q, Some b)")
    case True
    with Cons.prems have "q \<notin> fst ` set vs" by auto
    have "fold (ss_step H) (v # vs) sm q = fold (ss_step H) vs (sm(q \<mapsto> H b)) q"
      using True by simp
    also have "\<dots> = (sm(q \<mapsto> H b)) q" by (rule fold_ss_step_other) fact
    finally show ?thesis by simp
  next
    case False
    with Cons.prems have "distinct (map fst vs)" "(q, Some b) \<in> set vs" by auto
    from Cons.IH[OF this] show ?thesis by simp
  qed
qed

lemma fold_ss_step_dom:
  "dom (fold (ss_step H) vs sm) \<subseteq> dom sm \<union> fst ` set vs"
proof (induction vs arbitrary: sm)
  case Nil
  show ?case by simp
next
  case (Cons v vs)
  obtain p c where v: "v = (p, c)" by (cases v)
  have "dom (ss_step H v sm) \<subseteq> dom sm \<union> {p}" using v by (cases c) auto
  with Cons.IH[of "ss_step H v sm"] v show ?case by auto
qed


lemma storeState_clean:
  assumes "clean (rootDir m) (tree d)"
  shows "storeState H m d =
           (None, d\<lparr>stateFile := Parsed (fold (ss_step H) (visible (rootDir m) (tree d)) Map.empty)\<rparr>)"
proof -
  obtain sm r where w: "walk (storeState_fn H) (rootDir m) (tree d) Map.empty = (sm, r)"
    by (cases "walk (storeState_fn H) (rootDir m) (tree d) Map.empty")
  have sm: "sm = fold (ss_step H) (visible (rootDir m) (tree d)) Map.empty"
    using storeState_walk_clean[OF assms, of H Map.empty] w by simp
  have "r \<noteq> Err e" for e
    using walk_clean_no_error(1)[OF assms, of H Map.empty e] w by simp
  with w sm show ?thesis
    by (cases r) (auto simp: storeState_def Walk_def)
qed

text \<open>
  Where the walk meets no error and no path twice, \<open>GetChanges\<close> right after
  \<open>storeState\<close> reports nothing.
\<close>

lemma snapshot_then_no_changes:
  assumes cl: "clean (rootDir m) (tree d)"
    and ds: "distinct (map fst (visible (rootDir m) (tree d)))"
  shows "fst (GetChanges H m (snd (storeState H m d))) =
           Inr \<lparr>Changes = Map.empty, Deletions = {}\<rparr>"
proof -
  let ?vs = "visible (rootDir m) (tree d)"
  let ?sm = "fold (ss_step H) ?vs Map.empty"
  let ?d1 = "d\<lparr>stateFile := Parsed ?sm\<rparr>"
  let ?w = "walk (GetChanges_fn H ?sm) (rootDir m) (tree d) (dom ?sm, Map.empty)"
  have d1: "snd (storeState H m d) = ?d1" by (simp add: storeState_clean[OF cl])
  have g: "fst (GetChanges H m ?d1) = Inr \<lparr>Changes = snd (fst ?w), Deletions = fst (fst ?w)\<rparr>"
    by (simp add: GetChanges_def getStoredState_def Walk_def split: prod.splits)
  have f: "fst ?w = fold (gc_step H ?sm) ?vs (dom ?sm, Map.empty)"
    by (rule GetChanges_walk_clean[OF cl])
  have "fst (fst ?w) = dom ?sm - fst ` set ?vs"
    unfolding f by (rule fold_gc_deletions)
  moreover have "dom ?sm \<subseteq> fst ` set ?vs"
    using fold_ss_step_dom[of H ?vs Map.empty] by simp
  ultimately have dl: "fst (fst ?w) = {}" by blast
  have "snd (fst ?w) x = None" for x
  proof -
    have "lookup0 ?sm x = H b" if "(x, Some b) \<in> set ?vs" for b
      using fold_ss_step_at[OF ds that, of H Map.empty] by (simp add: lookup0_def)
    then have n: "\<not> (\<exists>b. (x, Some b) \<in> set ?vs \<and> lookup0 ?sm x \<noteq> H b)"
      by auto
    have "(snd (fold (gc_step H ?sm) ?vs (dom ?sm, Map.empty)) x \<noteq> None) =
            (\<exists>b. (x, Some b) \<in> set ?vs \<and> lookup0 ?sm x \<noteq> H b)"
      unfolding fold_gc_changes by (simp del: not_None_eq)
    with n have "snd (fold (gc_step H ?sm) ?vs (dom ?sm, Map.empty)) x = None"
      by blast
    then show ?thesis by (simp only: f)
  qed
  then have ch: "snd (fst ?w) = Map.empty" by (rule ext)
  show ?thesis unfolding d1 g dl ch ..
qed

text \<open>On a clean tree \<open>GetChanges\<close> sorts every path into one of three classes.\<close>

lemma GetChanges_partition:
  assumes st: "stateFile d = Parsed st"
    and cl: "clean (rootDir m) (tree d)"
    and H: "\<And>b. H b \<noteq> []"
  obtains sc where "fst (GetChanges H m d) = Inr sc"
    and "\<And>q. q \<in> dom (Changes sc) \<longleftrightarrow>
           (\<exists>b. (q, Some b) \<in> set (visible (rootDir m) (tree d)) \<and> st q \<noteq> Some (H b))"
    and "Deletions sc = dom st - fst ` set (visible (rootDir m) (tree d))"
    and "dom (Changes sc) \<inter> Deletions sc = {}"
proof -
  let ?vs = "visible (rootDir m) (tree d)"
  let ?w = "walk (GetChanges_fn H st) (rootDir m) (tree d) (dom st, Map.empty)"
  let ?sc = "\<lparr>Changes = snd (fst ?w), Deletions = fst (fst ?w)\<rparr>"
  have g: "fst (GetChanges H m d) = Inr ?sc"
    using st by (simp add: GetChanges_def getStoredState_def Walk_def split: prod.splits)
  have f: "fst ?w = fold (gc_step H st) ?vs (dom st, Map.empty)"
    by (rule GetChanges_walk_clean[OF cl])
  have neq: "lookup0 st q \<noteq> H b \<longleftrightarrow> st q \<noteq> Some (H b)" for q b
    using H[of b] by (cases "st q") (simp_all add: lookup0_def)
  have c: "q \<in> dom (Changes ?sc) \<longleftrightarrow> (\<exists>b. (q, Some b) \<in> set ?vs \<and> st q \<noteq> Some (H b))" for q
    using fold_gc_changes[of H st ?vs "dom st" Map.empty q] by (simp add: f neq domIff)
  have dl: "Deletions ?sc = dom st - fst ` set ?vs"
    by (simp add: f fold_gc_deletions)
  have "q \<notin> Deletions ?sc" if "q \<in> dom (Changes ?sc)" for q
  proof -
    from that c obtain b where "(q, Some b) \<in> set ?vs" by blast
    then have "q \<in> fst ` set ?vs" by force
    with dl show ?thesis by simp
  qed
  then have "dom (Changes ?sc) \<inter> Deletions ?sc = {}" by blast
  with g c dl that show thesis by blast
qed


lemma readAll_clean:
  assumes "clean (rootDir m) (tree d)"
  shows "readAll m d =
           Inr \<lparr>Changes = fold ra_step (visible (rootDir m) (tree d)) Map.empty, Deletions = {}\<rparr>"
proof -
  obtain ch r where w: "walk readAll_fn (rootDir m) (tree d) Map.empty = (ch, r)"
    by (cases "walk readAll_fn (rootDir m) (tree d) Map.empty")
  have ch: "ch = fold ra_step (visible (rootDir m) (tree d)) Map.empty"
    using readAll_walk_clean[OF assms, of Map.empty] w by simp
  have "r \<noteq> Err e" for e
    using walk_clean_no_error(2)[OF assms, of Map.empty e] w by simp
  with w ch show ?thesis
    by (cases r) (auto simp: readAll_def Walk_def)
qed

text \<open>
  Claim C1 says that for every stored snapshot and every tree \<open>GetChanges\<close> puts a path
  among the changes exactly when a visible file at it is new or has another
  fingerprint, and among the deletions exactly when it is a stored key with no file left.
  Lemma \<open>GetChanges_partition\<close> shows this for the trees on which the walk meets no
  error. Here the walk stops at the unreadable \<open>a.py\<close>: \<open>b.py\<close> exists with a content
  that is not the stored one, and is returned as deleted and not as changed.
\<close>

theorem GetChanges_lost_walk_error:
  "fst (GetChanges pad64 mgr disk_unreadable_changed) =
     Inr \<lparr>Changes = Map.empty, Deletions = {''r/b.py''}\<rparr>"
  by (auto simp: GetChanges_def mgr_def disk_unreadable_changed_def eval_defs)

text \<open>
  Claim C6 says that \<open>GetChanges\<close> right after a successful \<open>storeState\<close> returns no
  change and no deletion. Lemma \<open>snapshot_then_no_changes\<close> shows this for the trees on
  which the walk meets no error. With a directory that cannot be listed, \<open>storeState\<close>
  passes over it and succeeds, the walk of \<open>GetChanges\<close> stops at it, and the file after
  it, just recorded, is returned as deleted.
\<close>

theorem storeState_then_GetChanges_unlistable:
  "fst (storeState pad64 mgr disk_unlistable) = None \<and>
   fst (GetChanges pad64 mgr (snd (storeState pad64 mgr disk_unlistable))) =
     Inr \<lparr>Changes = Map.empty, Deletions = {''r/b.py''}\<rparr>"
  by (simp add: storeState_def GetChanges_def mgr_def disk_unlistable_def eval_defs)

text \<open>
  Claim C9: \<open>GetChanges\<close> leaves the disk, and with it the state file and the program
  info file, as it found it, whatever the state file holds. With no state file it
  returns what \<open>readAll\<close> returns, which on a tree read without error is the content of
  every visible file as a change, and no deletion.
\<close>

theorem GetChanges_writes_nothing:
  "snd (GetChanges H m d) = d \<and>
   (stateFile d = Missing \<longrightarrow> fst (GetChanges H m d) = readAll m d) \<and>
   (clean (rootDir m) (tree d) \<longrightarrow>
      readAll m d =
        Inr \<lparr>Changes = fold ra_step (visible (rootDir m) (tree d)) Map.empty, Deletions = {}\<rparr>)"
  by (auto simp: GetChanges_def getStoredState_def readAll_clean split: sum.splits prod.splits)

theorem GetChanges_writes_nothing_witness:
  "stateFile disk_hidden = Missing \<and> clean (rootDir mgr) (tree disk_hidden) \<and>
   snd (GetChanges pad64 mgr disk_hidden) = disk_hidden \<and>
   fst (GetChanges pad64 mgr disk_hidden) =
     Inr \<lparr>Changes = [''r/a.py'' \<mapsto> ''y''], Deletions = {}\<rparr>"
proof -
  have h1: "stateFile disk_hidden = Missing" by (simp add: disk_hidden_def)
  have h2: "clean (rootDir mgr) (tree disk_hidden)"
    by (simp add: disk_hidden_def mgr_def join_def isHidden_def base_def)
  have v: "fold ra_step (visible (rootDir mgr) (tree disk_hidden)) Map.empty = [''r/a.py'' \<mapsto> ''y'']"
    by (simp add: disk_hidden_def mgr_def join_def isHidden_def base_def)
  from GetChanges_writes_nothing[of pad64 mgr disk_hidden] h1 h2
  have "snd (GetChanges pad64 mgr disk_hidden) = disk_hidden"
    and "fst (GetChanges pad64 mgr disk_hidden) =
      Inr \<lparr>Changes = fold ra_step (visible (rootDir mgr) (tree disk_hidden)) Map.empty, Deletions = {}\<rparr>"
    by simp_all
  with h1 h2 v show ?thesis by simp
qed

end
